theory Spec2Isabelle
  imports Main "HOL-Library.Word" "HOL-Library.Sublist"
begin

section \<open>JavaScript strings\<close>

text \<open>
  A JavaScript string is a sequence of 16-bit code units; \<open>length\<close>, \<open>trim\<close>,
  \<open>includes\<close> and \<open>split\<close> all work on code units. String literals of
  \<^verbatim>\<open>App.jsx\<close> that are plain ASCII are written with \<open>ascii\<close>; the emoji that open
  the canned messages are written as their code units.
\<close>

type_synonym jsstring = "16 word list"

definition ascii :: "string \<Rightarrow> jsstring" where
  "ascii s = map (\<lambda>c. of_nat (of_char c)) s"

text \<open>The class \<^verbatim>\<open>\d\<close> of a regular expression without the unicode flag: 0 to 9.\<close>

definition is_digit :: "16 word \<Rightarrow> bool" where
  "is_digit c \<longleftrightarrow> 0x30 \<le> c \<and> c \<le> 0x39"

text \<open>
  The class \<^verbatim>\<open>\s\<close>, which is also what \<^verbatim>\<open>String.prototype.trim\<close> strips:
  the white space and line terminator code units of ECMAScript.
\<close>

definition is_ws :: "16 word \<Rightarrow> bool" where
  "is_ws c \<longleftrightarrow>
     (0x09 \<le> c \<and> c \<le> 0x0D) \<or> c = 0x20 \<or> c = 0xA0 \<or> c = 0x1680 \<or>
     (0x2000 \<le> c \<and> c \<le> 0x200A) \<or> c = 0x2028 \<or> c = 0x2029 \<or> c = 0x202F \<or>
     c = 0x205F \<or> c = 0x3000 \<or> c = 0xFEFF"

definition dot :: "16 word" where
  "dot = 0x2E"

text \<open>\<^verbatim>\<open>s.trim()\<close>\<close>

definition js_trim :: "jsstring \<Rightarrow> jsstring" where
  "js_trim s = rev (dropWhile is_ws (rev (dropWhile is_ws s)))"

text \<open>\<^verbatim>\<open>s.includes(t)\<close>: \<open>t\<close> occurs in \<open>s\<close> at some position.\<close>

fun js_includes :: "jsstring \<Rightarrow> jsstring \<Rightarrow> bool" where
  "js_includes [] t = (t = [])"
| "js_includes (c # cs) t = (prefix t (c # cs) \<or> js_includes cs t)"

text \<open>JavaScript truthiness of a string: every string but the empty one.\<close>

definition truthy :: "jsstring \<Rightarrow> bool" where
  "truthy s \<longleftrightarrow> s \<noteq> []"

subsection \<open>The regular expression \<^verbatim>\<open>/\d+\.\s/\<close>\<close>

text \<open>
  The matcher is run at the start of a string and returns the length of the match.
  \<^verbatim>\<open>\d+\<close> is greedy: it first takes the whole run of digits and gives digits back one
  at a time, down to one digit, while the rest of the pattern (a period, then one
  \<^verbatim>\<open>\s\<close>) does not match.
\<close>

definition sep_tail :: "jsstring \<Rightarrow> bool" where
  "sep_tail xs = (case xs of d # w # _ \<Rightarrow> d = dot \<and> is_ws w | _ \<Rightarrow> False)"

fun backtrack :: "nat \<Rightarrow> jsstring \<Rightarrow> nat option" where
  "backtrack 0 xs = None"
| "backtrack (Suc k) xs =
     (if sep_tail (drop (Suc k) xs) then Some (Suc k + 2) else backtrack k xs)"

definition match_sep :: "jsstring \<Rightarrow> nat option" where
  "match_sep xs = backtrack (length (takeWhile is_digit xs)) xs"

subsection \<open>\<^verbatim>\<open>String.prototype.split\<close> with that regular expression\<close>

text \<open>
  The loop of the standard's split, with no limit: \<open>p\<close> is the start of the current
  segment and \<open>q\<close> the position where a match is tried. Here \<open>seg\<close> is the text between
  \<open>p\<close> and \<open>q\<close> and the second argument is the text from \<open>q\<close> on. A failed match
  moves \<open>q\<close> one code unit on; so does a match that ends at \<open>p\<close> (an empty match at the
  start of the segment); any other match closes the segment and continues after the match.
  At the end of the string the last segment is closed.
\<close>

function split_loop :: "jsstring \<Rightarrow> jsstring \<Rightarrow> jsstring list" where
  "split_loop seg [] = [seg]"
| "split_loop seg (c # cs) =
     (case match_sep (c # cs) of
        None \<Rightarrow> split_loop (seg @ [c]) cs
      | Some n \<Rightarrow>
          if n = 0 \<and> seg = [] then split_loop (seg @ [c]) cs
          else seg # split_loop [] (drop n (c # cs)))"
  by pat_completeness auto
termination
  by (relation "measure (\<lambda>(seg, xs). 2 * length xs + (if seg = [] then 0 else 1))") auto

text \<open>
  On the empty string the standard returns no segment when the pattern matches the empty
  string, and the string itself as the only segment otherwise.
\<close>

definition js_split :: "jsstring \<Rightarrow> jsstring list" where
  "js_split s =
     (if s = [] then (case match_sep [] of None \<Rightarrow> [s] | Some _ \<Rightarrow> [])
      else split_loop [] s)"

section \<open>The view state and the HTTP boundary\<close>

text \<open>The six \<^verbatim>\<open>useState\<close> cells of \<^verbatim>\<open>App\<close>, with their initial values.\<close>

record app_state =
  topic :: jsstring
  facts :: "jsstring list"
  loading :: bool
  loadingMore :: bool
  loadingRandomWord :: bool
  error :: jsstring

definition initial_state :: app_state where
  "initial_state =
     \<lparr>topic = [], facts = [], loading = False, loadingMore = False,
      loadingRandomWord = False, error = []\<rparr>"

text \<open>
  A request as handed to \<^verbatim>\<open>fetch\<close>. The body is the object given to
  \<^verbatim>\<open>JSON.stringify\<close>, as its fields in order; \<open>None\<close> is a request without a body.
\<close>

datatype json = JStr jsstring | JBool bool

record request =
  url :: string
  http_method :: string
  headers :: "(string \<times> string) list"
  body :: "(string \<times> json) list option"

text \<open>
  What the two awaits of a handler (\<^verbatim>\<open>fetch\<close>, then \<^verbatim>\<open>response.json()\<close>) give
  back. \<open>Rejected m\<close>: one of them threw an error whose message is \<open>m\<close>.
  \<open>Response ok d\<close>: a response with \<^verbatim>\<open>response.ok = ok\<close> and parsed body \<open>d\<close>.
\<close>

datatype 'd outcome = Rejected jsstring | Response bool 'd

text \<open>
  The body of a \<^verbatim>\<open>/api/facts\<close> response: \<^verbatim>\<open>data.facts\<close> is an array of strings, a
  string, or anything else (absent included); \<^verbatim>\<open>data.error\<close> is a string or absent.
\<close>

datatype facts_payload = FactsArray "jsstring list" | FactsString jsstring | FactsOther

record facts_data =
  facts_field :: facts_payload
  error_field :: "jsstring option"

text \<open>
  The body of a \<^verbatim>\<open>/api/random-words\<close> response. The handler reads \<^verbatim>\<open>data.word\<close>
  only from an ok response, which by the contract carries a word.
\<close>

record word_data =
  word :: jsstring
  remaining :: int
  word_error :: "jsstring option"

text \<open>\<^verbatim>\<open>data.error || fallback\<close>: an absent or empty error gives the fallback.\<close>

definition error_or :: "jsstring option \<Rightarrow> jsstring \<Rightarrow> jsstring" where
  "error_or e fallback =
     (case e of None \<Rightarrow> fallback | Some m \<Rightarrow> if truthy m then m else fallback)"

section \<open>Response reshaping\<close>

text \<open>The computation of \<^verbatim>\<open>cleanFacts\<close>, the same in both handlers.\<close>

definition cleanFacts :: "facts_payload \<Rightarrow> jsstring list" where
  "cleanFacts p =
     (case p of
        FactsArray xs \<Rightarrow> xs
      | FactsString s \<Rightarrow> filter (\<lambda>s. length s > 0) (map js_trim (js_split s))
      | FactsOther \<Rightarrow> [])"

section \<open>The handlers\<close>

text \<open>
  Each handler is an \<^verbatim>\<open>async\<close> function. Its model has two parts: \<open>_sync\<close> is the
  code up to the call of \<^verbatim>\<open>fetch\<close> and returns the updated state with the request
  issued, if any; \<open>_resume\<close> is the code after the awaits (the rest of \<^verbatim>\<open>try\<close>, then
  \<^verbatim>\<open>catch\<close> and \<^verbatim>\<open>finally\<close>), applied to the outcome and to the state at that time.
\<close>

subsection \<open>\<^verbatim>\<open>fetchFacts\<close> (submit-topic)\<close>

definition facts_url :: string where
  "facts_url = ''http://localhost:5000/api/facts''"

definition json_headers :: "(string \<times> string) list" where
  "json_headers = [(''Content-Type'', ''application/json'')]"

definition msg_required :: jsstring where
  "msg_required = ascii ''Please enter a topic first!''"

definition msg_too_short :: jsstring where
  "msg_too_short = ascii ''Topic too short! Please enter at least 2 characters.''"

definition msg_too_long :: jsstring where
  "msg_too_long = ascii ''Topic too long! Please keep it under 50 characters.''"

definition msg_rate_limit :: jsstring where
  "msg_rate_limit =
     0x23F0 # ascii '' Too many requests! Please wait a moment and try again.''"

definition msg_server_issue :: jsstring where
  "msg_server_issue =
     0xD83D # 0xDD27 #
     ascii '' Server issue detected. Try a different topic or wait a few minutes.''"

definition msgs_generic :: "jsstring list" where
  "msgs_generic =
     [0xD83D # 0xDE4F # ascii '' Sorry, we couldn't fetch fun facts right now.'',
      0xD83D # 0xDCE1 #
        ascii '' Possible reason: connectivity issue or API credit limit reached.'',
      0xD83D # 0xDCA1 # ascii '' Please try again in a few minutes!'']"

definition fetchFacts_sync :: "app_state \<Rightarrow> app_state \<times> request option" where
  "fetchFacts_sync s =
     (let sanitizedTopic = js_trim (topic s) in
      if \<not> truthy sanitizedTopic then (s\<lparr>error := msg_required\<rparr>, None)
      else if length sanitizedTopic < 2 then (s\<lparr>error := msg_too_short\<rparr>, None)
      else if length sanitizedTopic > 50 then (s\<lparr>error := msg_too_long\<rparr>, None)
      else
        (s\<lparr>error := [], loading := True, facts := []\<rparr>,
         Some \<lparr>url = facts_url, http_method = ''POST'', headers = json_headers,
               body = Some [(''topic'', JStr sanitizedTopic)]\<rparr>))"

text \<open>The \<^verbatim>\<open>try\<close> block after the awaits: \<open>Inl m\<close> is an error thrown with message \<open>m\<close>.\<close>

definition fetchFacts_try :: "facts_data outcome \<Rightarrow> app_state \<Rightarrow> jsstring + app_state" where
  "fetchFacts_try out s =
     (case out of
        Rejected m \<Rightarrow> Inl m
      | Response ok d \<Rightarrow>
          if \<not> ok then Inl (error_or (error_field d) (ascii ''Failed to fetch facts''))
          else Inr (s\<lparr>facts := cleanFacts (facts_field d)\<rparr>))"

definition fetchFacts_catch :: "jsstring \<Rightarrow> app_state \<Rightarrow> app_state" where
  "fetchFacts_catch m s =
     (if js_includes m (ascii ''429'') \<or> js_includes m (ascii ''Too many requests'')
      then s\<lparr>facts := [msg_rate_limit]\<rparr>
      else if js_includes m (ascii ''500'') \<or> js_includes m (ascii ''Something went wrong'')
      then s\<lparr>facts := [msg_server_issue]\<rparr>
      else s\<lparr>facts := msgs_generic\<rparr>)"

definition fetchFacts_resume :: "facts_data outcome \<Rightarrow> app_state \<Rightarrow> app_state" where
  "fetchFacts_resume out s =
     (case fetchFacts_try out s of
        Inr s' \<Rightarrow> s'
      | Inl m \<Rightarrow> fetchFacts_catch m s)\<lparr>loading := False\<rparr>"

text \<open>The whole handler, when nothing else happens while the request is in flight.\<close>

definition fetchFacts :: "(request \<Rightarrow> facts_data outcome) \<Rightarrow> app_state \<Rightarrow> app_state" where
  "fetchFacts env s =
     (case fetchFacts_sync s of
        (s1, None) \<Rightarrow> s1
      | (s1, Some r) \<Rightarrow> fetchFacts_resume (env r) s1)"

subsection \<open>\<^verbatim>\<open>fetchMoreFacts\<close> (load-more)\<close>

definition msg_more_failed :: jsstring where
  "msg_more_failed = 0xD83D # 0xDE4F # ascii '' Sorry, couldn't fetch more facts.''"

definition fetchMoreFacts_sync :: "app_state \<Rightarrow> app_state \<times> request option" where
  "fetchMoreFacts_sync s =
     (if \<not> truthy (topic s) then (s, None)
      else
        (s\<lparr>loadingMore := True\<rparr>,
         Some \<lparr>url = facts_url, http_method = ''POST'', headers = json_headers,
               body = Some [(''topic'', JStr (topic s)), (''more'', JBool True)]\<rparr>))"

definition fetchMoreFacts_try :: "facts_data outcome \<Rightarrow> app_state \<Rightarrow> jsstring + app_state" where
  "fetchMoreFacts_try out s =
     (case out of
        Rejected m \<Rightarrow> Inl m
      | Response ok d \<Rightarrow>
          if \<not> ok then Inl (error_or (error_field d) (ascii ''Failed to fetch more facts''))
          else Inr (s\<lparr>facts := facts s @ cleanFacts (facts_field d)\<rparr>))"

definition fetchMoreFacts_catch :: "jsstring \<Rightarrow> app_state \<Rightarrow> app_state" where
  "fetchMoreFacts_catch m s = s\<lparr>facts := facts s @ [msg_more_failed]\<rparr>"

definition fetchMoreFacts_resume :: "facts_data outcome \<Rightarrow> app_state \<Rightarrow> app_state" where
  "fetchMoreFacts_resume out s =
     (case fetchMoreFacts_try out s of
        Inr s' \<Rightarrow> s'
      | Inl m \<Rightarrow> fetchMoreFacts_catch m s)\<lparr>loadingMore := False\<rparr>"

definition fetchMoreFacts :: "(request \<Rightarrow> facts_data outcome) \<Rightarrow> app_state \<Rightarrow> app_state" where
  "fetchMoreFacts env s =
     (case fetchMoreFacts_sync s of
        (s1, None) \<Rightarrow> s1
      | (s1, Some r) \<Rightarrow> fetchMoreFacts_resume (env r) s1)"

subsection \<open>\<^verbatim>\<open>getRandomWord\<close> (random-topic)\<close>

definition random_words_url :: string where
  "random_words_url = ''http://localhost:5000/api/random-words''"

definition msg_random_failed :: jsstring where
  "msg_random_failed = ascii ''Failed to get random topic. Please try again.''"

definition getRandomWord_sync :: "app_state \<Rightarrow> app_state \<times> request option" where
  "getRandomWord_sync s =
     (s\<lparr>loadingRandomWord := True\<rparr>,
      Some \<lparr>url = random_words_url, http_method = ''GET'', headers = [], body = None\<rparr>)"

definition getRandomWord_try :: "word_data outcome \<Rightarrow> app_state \<Rightarrow> jsstring + app_state" where
  "getRandomWord_try out s =
     (case out of
        Rejected m \<Rightarrow> Inl m
      | Response ok d \<Rightarrow>
          if \<not> ok then Inl (error_or (word_error d) (ascii ''Failed to get random word''))
          else Inr (s\<lparr>topic := word d, error := []\<rparr>))"

definition getRandomWord_catch :: "jsstring \<Rightarrow> app_state \<Rightarrow> app_state" where
  "getRandomWord_catch m s = s\<lparr>error := msg_random_failed\<rparr>"

definition getRandomWord_resume :: "word_data outcome \<Rightarrow> app_state \<Rightarrow> app_state" where
  "getRandomWord_resume out s =
     (case getRandomWord_try out s of
        Inr s' \<Rightarrow> s'
      | Inl m \<Rightarrow> getRandomWord_catch m s)\<lparr>loadingRandomWord := False\<rparr>"

definition getRandomWord :: "(request \<Rightarrow> word_data outcome) \<Rightarrow> app_state \<Rightarrow> app_state" where
  "getRandomWord env s =
     (case getRandomWord_sync s of
        (s1, None) \<Rightarrow> s1
      | (s1, Some r) \<Rightarrow> getRandomWord_resume (env r) s1)"

subsection \<open>The \<^verbatim>\<open>disabled\<close> attribute of the three buttons\<close>

definition random_button_disabled :: "app_state \<Rightarrow> bool" where
  "random_button_disabled s = loadingRandomWord s"

definition submit_button_disabled :: "app_state \<Rightarrow> bool" where
  "submit_button_disabled s = (loading s \<or> \<not> truthy (js_trim (topic s)))"

definition more_button_disabled :: "app_state \<Rightarrow> bool" where
  "more_button_disabled s = loadingMore s"

section \<open>The view as an event system\<close>

text \<open>
  \<^verbatim>\<open>handleKeyPress\<close> of the topic input: Enter calls \<^verbatim>\<open>fetchFacts\<close>, Escape clears the
  topic and the error message, any other key does nothing here.
\<close>

datatype key = Enter | Escape | OtherKey

definition handleKeyPress :: "key \<Rightarrow> app_state \<Rightarrow> app_state \<times> request option" where
  "handleKeyPress k s =
     (case k of
        Enter \<Rightarrow> fetchFacts_sync s
      | Escape \<Rightarrow> (s\<lparr>topic := [], error := []\<rparr>, None)
      | OtherKey \<Rightarrow> (s, None))"

text \<open>
  The load-more button is part of the facts panel, which is rendered when there are
  facts, and is itself rendered when there are at most five of them.
\<close>

definition more_button_rendered :: "app_state \<Rightarrow> bool" where
  "more_button_rendered s \<longleftrightarrow>
     length (facts s) > 0 \<and> (length (facts s) \<le> 5 \<and> length (facts s) > 0)"

text \<open>The view state together with the number of requests of each kind still in flight.\<close>

record ui =
  view :: app_state
  submits_in_flight :: nat
  mores_in_flight :: nat
  randoms_in_flight :: nat

definition initial_ui :: ui where
  "initial_ui =
     \<lparr>view = initial_state, submits_in_flight = 0, mores_in_flight = 0,
      randoms_in_flight = 0\<rparr>"

text \<open>
  What can happen to the view: the user edits the topic, presses a key in the input or
  clicks a button, or a request in flight completes with some outcome. The input is never
  disabled; a button that is disabled or not rendered cannot be clicked. The input's
  \<^verbatim>\<open>maxLength\<close> bounds what can be typed; here any text can be entered, which only adds
  behaviours.
\<close>

datatype event =
    TypeTopic jsstring
  | KeyPress key
  | ClickSubmit
  | ClickMore
  | ClickRandom
  | SubmitDone "facts_data outcome"
  | MoreDone "facts_data outcome"
  | RandomDone "word_data outcome"

definition issued :: "request option \<Rightarrow> nat \<Rightarrow> nat" where
  "issued r n = (case r of None \<Rightarrow> n | Some _ \<Rightarrow> Suc n)"

text \<open>One event; \<open>None\<close> when the event cannot happen in that state.\<close>

fun step :: "event \<Rightarrow> ui \<Rightarrow> ui option" where
  "step (TypeTopic t) u = Some (u\<lparr>view := (view u)\<lparr>topic := t\<rparr>\<rparr>)"
| "step (KeyPress k) u =
     (case handleKeyPress k (view u) of
        (s, r) \<Rightarrow> Some (u\<lparr>view := s, submits_in_flight := issued r (submits_in_flight u)\<rparr>))"
| "step ClickSubmit u =
     (if submit_button_disabled (view u) then None
      else case fetchFacts_sync (view u) of
        (s, r) \<Rightarrow> Some (u\<lparr>view := s, submits_in_flight := issued r (submits_in_flight u)\<rparr>))"
| "step ClickMore u =
     (if \<not> more_button_rendered (view u) \<or> more_button_disabled (view u) then None
      else case fetchMoreFacts_sync (view u) of
        (s, r) \<Rightarrow> Some (u\<lparr>view := s, mores_in_flight := issued r (mores_in_flight u)\<rparr>))"
| "step ClickRandom u =
     (if random_button_disabled (view u) then None
      else case getRandomWord_sync (view u) of
        (s, r) \<Rightarrow> Some (u\<lparr>view := s, randoms_in_flight := issued r (randoms_in_flight u)\<rparr>))"
| "step (SubmitDone out) u =
     (if submits_in_flight u = 0 then None
      else Some (u\<lparr>view := fetchFacts_resume out (view u),
                   submits_in_flight := submits_in_flight u - 1\<rparr>))"
| "step (MoreDone out) u =
     (if mores_in_flight u = 0 then None
      else Some (u\<lparr>view := fetchMoreFacts_resume out (view u),
                   mores_in_flight := mores_in_flight u - 1\<rparr>))"
| "step (RandomDone out) u =
     (if randoms_in_flight u = 0 then None
      else Some (u\<lparr>view := getRandomWord_resume out (view u),
                   randoms_in_flight := randoms_in_flight u - 1\<rparr>))"

fun run :: "event list \<Rightarrow> ui \<Rightarrow> ui option" where
  "run [] u = Some u"
| "run (e # es) u = (case step e u of None \<Rightarrow> None | Some u' \<Rightarrow> run es u')"

text \<open>A flag is set exactly when one request of its kind is in flight, and there is no other.\<close>

definition more_random_inv :: "ui \<Rightarrow> bool" where
  "more_random_inv u \<longleftrightarrow>
     mores_in_flight u = (if loadingMore (view u) then 1 else 0)
     \<and> randoms_in_flight u = (if loadingRandomWord (view u) then 1 else 0)"

definition submit_inv :: "ui \<Rightarrow> bool" where
  "submit_inv u \<longleftrightarrow> submits_in_flight u = (if loading (view u) then 1 else 0)"

section \<open>The reshaping in the words of the specification\<close>

text \<open>
  A separator is one or more digits followed by a period and one white space code unit.
\<close>

definition is_separator :: "jsstring \<Rightarrow> bool" where
  "is_separator u =
     (case rev u of
        w # d # ds \<Rightarrow> ds \<noteq> [] \<and> list_all is_digit ds \<and> d = dot \<and> is_ws w
      | _ \<Rightarrow> False)"

text \<open>The length of the separator that starts a text, if one does.\<close>

definition separator_at :: "jsstring \<Rightarrow> nat option" where
  "separator_at xs = find (\<lambda>n. is_separator (take n xs)) [1..<Suc (length xs)]"

text \<open>
  Splitting on every occurrence of a separator, reading from the left: where a separator
  starts the remaining text, the current segment ends and the next one begins after that
  separator (which has at least one code unit); elsewhere the code unit joins the current
  segment.
\<close>

fun spec_split :: "jsstring \<Rightarrow> jsstring \<Rightarrow> jsstring list" where
  "spec_split seg [] = [seg]"
| "spec_split seg (c # cs) =
     (case separator_at (c # cs) of
        None \<Rightarrow> spec_split (seg @ [c]) cs
      | Some n \<Rightarrow> seg # spec_split [] (drop (n - 1) cs))"

definition split_on_numbering :: "jsstring \<Rightarrow> jsstring list" where
  "split_on_numbering s = spec_split [] s"

text \<open>A string that is not empty and neither starts nor ends with white space.\<close>

definition trimmed_nonempty :: "jsstring \<Rightarrow> bool" where
  "trimmed_nonempty x \<longleftrightarrow> x \<noteq> [] \<and> \<not> is_ws (hd x) \<and> \<not> is_ws (last x)"

text \<open>A server that answers every request with the one-element array \<^verbatim>\<open>["new"]\<close>.\<close>

definition env_one_fact :: "request \<Rightarrow> facts_data outcome" where
  "env_one_fact r = Response True \<lparr>facts_field = FactsArray [ascii ''new''], error_field = None\<rparr>"

section \<open>The regular expression and the separators\<close>

text \<open>
  Giving digits back never helps \<^verbatim>\<open>\d+\<close> here: after fewer digits than the whole run
  the next code unit is a digit, not a period. So the matcher succeeds exactly when the
  run of digits is not empty and is followed by a period and a white space code unit, and
  that is the one prefix of the text that is a separator.
\<close>

lemma dot_not_digit: "\<not> is_digit dot"
  by (simp add: is_digit_def dot_def)

lemma is_separator_iff:
  "is_separator u \<longleftrightarrow> (\<exists>ds w. u = ds @ [dot, w] \<and> ds \<noteq> [] \<and> (\<forall>d\<in>set ds. is_digit d) \<and> is_ws w)"
proof
  assume "is_separator u"
  then obtain w d ds where r: "rev u = w # d # ds" and p: "ds \<noteq> []" "list_all is_digit ds" "d = dot" "is_ws w"
    by (auto simp: is_separator_def split: list.splits)
  from r have "rev (rev u) = rev (w # d # ds)" by simp
  then have "u = rev ds @ [d, w]" by simp
  with p show "\<exists>ds w. u = ds @ [dot, w] \<and> ds \<noteq> [] \<and> (\<forall>d\<in>set ds. is_digit d) \<and> is_ws w"
    by (intro exI[of _ "rev ds"] exI[of _ w]) (auto simp: list_all_iff)
next
  assume "\<exists>ds w. u = ds @ [dot, w] \<and> ds \<noteq> [] \<and> (\<forall>d\<in>set ds. is_digit d) \<and> is_ws w"
  then show "is_separator u"
    by (auto simp: is_separator_def list_all_iff)
qed

lemma sep_tail_iff: "sep_tail xs \<longleftrightarrow> (\<exists>w rest. xs = dot # w # rest \<and> is_ws w)"
  by (auto simp: sep_tail_def split: list.splits)

lemma backtrack_run:
  assumes "k = length (takeWhile is_digit xs)" and "j \<le> k"
  shows "backtrack j xs =
     (if j = k \<and> 0 < j \<and> sep_tail (drop j xs) then Some (j + 2) else None)"
  using assms(2)
proof (induction j)
  case 0
  then show ?case by simp
next
  case (Suc j)
  then have IH: "backtrack j xs = None" by simp
  show ?case
  proof (cases "Suc j = k")
    case True
    then have "k = Suc j" by simp
    then show ?thesis using IH by simp
  next
    case False
    with Suc.prems have lt: "Suc j < length (takeWhile is_digit xs)"
      using assms(1) by simp
    then have "is_digit (xs ! Suc j)"
      by (metis nth_mem set_takeWhileD takeWhile_nth)
    moreover from lt have "Suc j < length xs"
      using length_takeWhile_le [of is_digit xs] by (meson less_le_trans)
    ultimately have "\<not> sep_tail (drop (Suc j) xs)"
      using dot_not_digit Cons_nth_drop_Suc [of "Suc j" xs, symmetric]
      by (auto simp: sep_tail_def split: list.splits)
    then show ?thesis using IH False by simp
  qed
qed

lemma match_sep_eq:
  "match_sep xs =
     (if takeWhile is_digit xs \<noteq> [] \<and> sep_tail (dropWhile is_digit xs)
      then Some (length (takeWhile is_digit xs) + 2) else None)"
  by (simp add: match_sep_def backtrack_run [OF refl] dropWhile_eq_drop)

lemma take_separator:
  assumes "n \<le> length xs"
  shows "is_separator (take n xs) \<longleftrightarrow>
    takeWhile is_digit xs \<noteq> [] \<and> sep_tail (dropWhile is_digit xs)
    \<and> n = length (takeWhile is_digit xs) + 2"
proof
  assume "is_separator (take n xs)"
  then obtain ds w where u: "take n xs = ds @ [dot, w]" and ds: "ds \<noteq> []" "\<forall>d\<in>set ds. is_digit d"
    and w: "is_ws w"
    by (auto simp: is_separator_iff)
  have "xs = take n xs @ drop n xs" by simp
  then have xs: "xs = ds @ dot # w # drop n xs"
    unfolding u by simp
  have tw: "takeWhile is_digit xs = ds"
    by (subst xs) (simp add: ds dot_not_digit)
  have dw: "dropWhile is_digit xs = dot # w # drop n xs"
    by (subst xs) (simp add: ds dot_not_digit)
  have "length (take n xs) = length ds + 2" using u by simp
  then have "n = length ds + 2" using assms by simp
  then show "takeWhile is_digit xs \<noteq> [] \<and> sep_tail (dropWhile is_digit xs)
    \<and> n = length (takeWhile is_digit xs) + 2"
    using tw dw ds w by (simp add: sep_tail_iff)
next
  assume a: "takeWhile is_digit xs \<noteq> [] \<and> sep_tail (dropWhile is_digit xs)
    \<and> n = length (takeWhile is_digit xs) + 2"
  then obtain w rest where dw: "dropWhile is_digit xs = dot # w # rest" and w: "is_ws w"
    by (auto simp: sep_tail_iff)
  have "take n (takeWhile is_digit xs @ dropWhile is_digit xs)
      = takeWhile is_digit xs @ [dot, w]"
    using a unfolding dw by simp
  then have "take n xs = takeWhile is_digit xs @ [dot, w]"
    by simp
  then show "is_separator (take n xs)"
    using a w by (auto simp: is_separator_iff dest: set_takeWhileD)
qed

lemma separator_at_eq: "separator_at xs = match_sep xs"
proof (cases "takeWhile is_digit xs \<noteq> [] \<and> sep_tail (dropWhile is_digit xs)")
  case True
  let ?n = "length (takeWhile is_digit xs) + 2"
  from True obtain w rest where dw: "dropWhile is_digit xs = dot # w # rest"
    by (auto simp: sep_tail_iff)
  have "length xs = length (takeWhile is_digit xs) + length (dropWhile is_digit xs)"
    by (metis length_append takeWhile_dropWhile_id)
  then have le: "?n \<le> length xs" using dw by simp
  have "find (\<lambda>n. is_separator (take n xs)) [1..<Suc (length xs)] = Some ?n"
    unfolding find_Some_iff
  proof (intro exI[of _ "?n - 1"] conjI allI impI)
    show "?n - 1 < length [1..<Suc (length xs)]" using le by simp
    have nth: "[1..<Suc (length xs)] ! (?n - 1) = ?n"
      using le by (simp del: upt_Suc)
    show "is_separator (take ([1..<Suc (length xs)] ! (?n - 1)) xs)"
      unfolding nth using le True by (simp add: take_separator)
    show "?n = [1..<Suc (length xs)] ! (?n - 1)" using nth by simp
  next
    fix j assume j: "j < ?n - 1"
    then have "[1..<Suc (length xs)] ! j = Suc j"
      using le by (simp del: upt_Suc)
    moreover have "\<not> is_separator (take (Suc j) xs)"
      using j le by (simp add: take_separator)
    ultimately show "\<not> is_separator (take ([1..<Suc (length xs)] ! j) xs)" by simp
  qed
  then show ?thesis using True by (simp add: separator_at_def match_sep_eq)
next
  case False
  have "\<not> is_separator (take n xs)" if "n \<in> set [1..<Suc (length xs)]" for n
  proof -
    from that have "n \<le> length xs" by (simp del: upt_Suc)
    then show ?thesis using False by (auto simp add: take_separator)
  qed
  then have "find (\<lambda>n. is_separator (take n xs)) [1..<Suc (length xs)] = None"
    unfolding find_None_iff by blast
  then show ?thesis using False by (simp add: separator_at_def match_sep_eq)
qed

lemma split_loop_spec: "split_loop seg xs = spec_split seg xs"
proof (induction seg xs rule: spec_split.induct)
  case (1 seg)
  then show ?case by simp
next
  case (2 seg c cs)
  show ?case
  proof (cases "match_sep (c # cs)")
    case None
    then show ?thesis using 2 by (simp add: separator_at_eq)
  next
    case (Some n)
    then have n: "n = length (takeWhile is_digit (c # cs)) + 2"
      by (simp add: match_sep_eq split: if_splits)
    then have "drop n (c # cs) = drop (n - 1) cs" by simp
    then show ?thesis using Some 2 n by (simp add: separator_at_eq)
  qed
qed

lemma js_split_spec: "js_split s = split_on_numbering s"
  by (cases s) (simp_all add: js_split_def split_on_numbering_def split_loop_spec match_sep_eq)

lemma resume_ok_facts:
  "facts (fetchFacts_resume (Response True d) s) = cleanFacts (facts_field d)"
  "facts (fetchMoreFacts_resume (Response True d) s) = facts s @ cleanFacts (facts_field d)"
  by (simp_all add: fetchFacts_resume_def fetchFacts_try_def fetchMoreFacts_resume_def
      fetchMoreFacts_try_def)

text \<open>
  C2. When \<^verbatim>\<open>data.facts\<close> of an ok response is a string, the facts computed from it are
  that string split on every occurrence of one or more digits followed by a period and a
  white space code unit, each segment trimmed and the segments that are then empty
  dropped; submit-topic stores that list and load-more appends it. When
  \<^verbatim>\<open>data.facts\<close> is an array it is taken as it is.
\<close>

theorem response_reshaping:
  "facts (fetchFacts_resume (Response True \<lparr>facts_field = FactsString str, error_field = e\<rparr>) s)
     = filter (\<lambda>x. x \<noteq> []) (map js_trim (split_on_numbering str))
   \<and> facts (fetchMoreFacts_resume
        (Response True \<lparr>facts_field = FactsString str, error_field = e\<rparr>) s)
     = facts s @ filter (\<lambda>x. x \<noteq> []) (map js_trim (split_on_numbering str))
   \<and> facts (fetchFacts_resume (Response True \<lparr>facts_field = FactsArray xs, error_field = e\<rparr>) s)
     = xs
   \<and> facts (fetchMoreFacts_resume
        (Response True \<lparr>facts_field = FactsArray xs, error_field = e\<rparr>) s)
     = facts s @ xs"
  by (simp add: resume_ok_facts cleanFacts_def js_split_spec)

theorem response_reshaping_witness:
  "facts (fetchFacts_resume
     (Response True \<lparr>facts_field = FactsString (ascii ''1. Cats purr. 2. Dogs bark.''),
                     error_field = None\<rparr>) initial_state)
   = [ascii ''Cats purr.'', ascii ''Dogs bark.'']"
proof -
  have e: "filter (\<lambda>x. x \<noteq> [])
        (map js_trim (split_on_numbering (ascii ''1. Cats purr. 2. Dogs bark.'')))
      = [ascii ''Cats purr.'', ascii ''Dogs bark.'']"
    by code_simp
  show ?thesis
    using response_reshaping [of "ascii ''1. Cats purr. 2. Dogs bark.''" None initial_state]
    by (simp only: e)
qed

section \<open>Parsed facts are trimmed and not empty\<close>

lemma js_trim_trimmed:
  assumes "js_trim t \<noteq> []"
  shows "trimmed_nonempty (js_trim t)"
proof -
  define ys where "ys = dropWhile is_ws t"
  define zs where "zs = dropWhile is_ws (rev ys)"
  have tr: "js_trim t = rev zs" by (simp add: js_trim_def ys_def zs_def)
  with assms have zs: "zs \<noteq> []" by simp
  then have ys: "ys \<noteq> []" by (auto simp: zs_def)
  have "\<not> is_ws (hd zs)" using zs unfolding zs_def by (rule hd_dropWhile)
  then have l: "\<not> is_ws (last (rev zs))" using zs by (simp add: last_rev)
  have "rev ys = takeWhile is_ws (rev ys) @ zs" by (simp add: zs_def)
  then have "last (rev ys) = last zs" using zs by (metis last_appendR)
  then have "last zs = hd ys" using ys by (simp add: last_rev)
  moreover have "\<not> is_ws (hd ys)" using ys unfolding ys_def by (rule hd_dropWhile)
  ultimately have h: "\<not> is_ws (hd (rev zs))" using zs by (simp add: hd_rev)
  show ?thesis using zs l h by (simp add: trimmed_nonempty_def tr)
qed

lemma cleanFacts_string_trimmed: "list_all trimmed_nonempty (cleanFacts (FactsString str))"
  by (auto simp: cleanFacts_def list_all_iff js_trim_trimmed)

text \<open>
  C10. Every string obtained by parsing a string payload is non-empty and has no white
  space at either end; these are the strings that submit-topic stores and that load-more
  appends.
\<close>

theorem parsed_facts_trimmed:
  "list_all trimmed_nonempty (cleanFacts (FactsString str))
   \<and> facts (fetchFacts_resume
        (Response True \<lparr>facts_field = FactsString str, error_field = e\<rparr>) s)
     = cleanFacts (FactsString str)
   \<and> facts (fetchMoreFacts_resume
        (Response True \<lparr>facts_field = FactsString str, error_field = e\<rparr>) s)
     = facts s @ cleanFacts (FactsString str)"
  by (simp add: resume_ok_facts cleanFacts_string_trimmed)

theorem parsed_facts_trimmed_witness:
  "cleanFacts (FactsString (ascii ''  1.  Cats purr.  2. 3. ''))= [ascii ''Cats purr.'']
   \<and> list_all trimmed_nonempty [ascii ''Cats purr.'']"
proof -
  have e: "cleanFacts (FactsString (ascii ''  1.  Cats purr.  2. 3. '')) = [ascii ''Cats purr.'']"
    by code_simp
  show ?thesis
    using parsed_facts_trimmed [of "ascii ''  1.  Cats purr.  2. 3. ''"]
    by (simp only: e simp_thms)
qed

section \<open>Input validation of submit-topic\<close>

lemma msg_required_nonempty: "msg_required \<noteq> []"
  by (simp add: msg_required_def ascii_def)

lemma msg_too_short_nonempty: "msg_too_short \<noteq> []"
  by (simp add: msg_too_short_def ascii_def)

lemma msg_too_long_nonempty: "msg_too_long \<noteq> []"
  by (simp add: msg_too_long_def ascii_def)

text \<open>
  C4. When the trimmed topic is empty, \<^verbatim>\<open>fetchFacts\<close> sets the error message to the
  required-field string (a non-empty string), issues no request and changes nothing
  else: the facts and the loading flag are as before, also for the whole handler under
  any environment.
\<close>

theorem fetchFacts_empty_topic:
  assumes "js_trim (topic s) = []"
  shows "fetchFacts_sync s = (s\<lparr>error := msg_required\<rparr>, None)
    \<and> fetchFacts env s = s\<lparr>error := msg_required\<rparr>
    \<and> msg_required \<noteq> []
    \<and> facts (fetchFacts env s) = facts s
    \<and> loading (fetchFacts env s) = loading s"
  using assms
  by (simp add: fetchFacts_sync_def fetchFacts_def truthy_def msg_required_nonempty)

theorem fetchFacts_empty_topic_witness:
  "js_trim (topic (initial_state\<lparr>topic := ascii ''   ''\<rparr>)) = []
   \<and> fetchFacts_sync (initial_state\<lparr>topic := ascii ''   ''\<rparr>)
       = (initial_state\<lparr>topic := ascii ''   '', error := msg_required\<rparr>, None)"
proof -
  have h: "js_trim (topic (initial_state\<lparr>topic := ascii ''   ''\<rparr>)) = []"
    by (simp add: js_trim_def ascii_def is_ws_def)
  show ?thesis
    using h fetchFacts_empty_topic [OF h] by simp
qed

text \<open>
  C3, as claimed, fails: a topic of one code unit has a trimmed length within 0 to 50,
  yet \<^verbatim>\<open>fetchFacts\<close> rejects it as too short and issues no request.
\<close>

theorem fetchFacts_validation_counterexample:
  "length (js_trim (topic (initial_state\<lparr>topic := ascii ''a''\<rparr>))) \<le> 50
   \<and> snd (fetchFacts_sync (initial_state\<lparr>topic := ascii ''a''\<rparr>)) = None
   \<and> error (fst (fetchFacts_sync (initial_state\<lparr>topic := ascii ''a''\<rparr>))) = msg_too_short"
  by (simp add: fetchFacts_sync_def js_trim_def ascii_def is_ws_def truthy_def)

text \<open>
  C3, amended. \<^verbatim>\<open>fetchFacts\<close> issues the request exactly when the trimmed topic has
  2 to 50 code units. A trimmed topic longer than 50 is rejected with the too-long
  message, one of length 1 with the too-short message and an empty one with the
  required-field message; each message is a non-empty string and a rejection changes
  nothing but the error message.
\<close>

theorem fetchFacts_validation:
  "(snd (fetchFacts_sync s) \<noteq> None \<longleftrightarrow>
      2 \<le> length (js_trim (topic s)) \<and> length (js_trim (topic s)) \<le> 50)
   \<and> (50 < length (js_trim (topic s)) \<longrightarrow>
        fetchFacts_sync s = (s\<lparr>error := msg_too_long\<rparr>, None) \<and> msg_too_long \<noteq> [])
   \<and> (length (js_trim (topic s)) = 1 \<longrightarrow>
        fetchFacts_sync s = (s\<lparr>error := msg_too_short\<rparr>, None) \<and> msg_too_short \<noteq> [])
   \<and> (length (js_trim (topic s)) = 0 \<longrightarrow>
        fetchFacts_sync s = (s\<lparr>error := msg_required\<rparr>, None) \<and> msg_required \<noteq> [])"
  by (auto simp add: fetchFacts_sync_def truthy_def Let_def msg_too_long_nonempty
      msg_too_short_nonempty msg_required_nonempty)

theorem fetchFacts_validation_witness:
  "snd (fetchFacts_sync (initial_state\<lparr>topic := ascii '' le sserafim ''\<rparr>)) \<noteq> None
   \<and> fetchFacts_sync (initial_state\<lparr>topic := replicate 51 0x61\<rparr>)
       = (initial_state\<lparr>topic := replicate 51 0x61, error := msg_too_long\<rparr>, None)
   \<and> fetchFacts_sync (initial_state\<lparr>topic := ascii ''a''\<rparr>)
       = (initial_state\<lparr>topic := ascii ''a'', error := msg_too_short\<rparr>, None)
   \<and> fetchFacts_sync (initial_state\<lparr>topic := []\<rparr>)
       = (initial_state\<lparr>topic := [], error := msg_required\<rparr>, None)"
proof -
  have a: "js_trim (ascii '' le sserafim '') = ascii ''le sserafim''"
    by (simp add: js_trim_def ascii_def is_ws_def)
  have a': "length (ascii ''le sserafim'') = 11" by (simp add: ascii_def)
  have "dropWhile is_ws (replicate 51 (0x61 :: 16 word)) = replicate 51 0x61"
    by (rule dropWhile_eq_self_iff [THEN iffD2]) (simp add: is_ws_def)
  then have b: "js_trim (replicate 51 0x61) = replicate 51 0x61"
    by (simp add: js_trim_def dropWhile_eq_self_iff is_ws_def)
  have c: "js_trim (ascii ''a'') = ascii ''a''" "length (ascii ''a'') = 1"
    by (simp_all add: js_trim_def ascii_def is_ws_def)
  have d: "js_trim [] = []" by (simp add: js_trim_def)
  show ?thesis
    using fetchFacts_validation [of "initial_state\<lparr>topic := ascii '' le sserafim ''\<rparr>"]
      fetchFacts_validation [of "initial_state\<lparr>topic := replicate 51 0x61\<rparr>"]
      fetchFacts_validation [of "initial_state\<lparr>topic := ascii ''a''\<rparr>"]
      fetchFacts_validation [of "initial_state\<lparr>topic := []\<rparr>"]
    by (simp add: a a' b c d)
qed

section \<open>Load-more without a topic\<close>

text \<open>
  C9. When the topic is the empty string, \<^verbatim>\<open>fetchMoreFacts\<close> returns at once: no
  request is issued and the state (facts, the loadingMore flag and the error message
  included) is unchanged.
\<close>

theorem fetchMoreFacts_empty_topic:
  assumes "topic s = []"
  shows "fetchMoreFacts_sync s = (s, None) \<and> fetchMoreFacts env s = s"
  using assms by (simp add: fetchMoreFacts_sync_def fetchMoreFacts_def truthy_def)

theorem fetchMoreFacts_empty_topic_witness:
  "topic initial_state = [] \<and> fetchMoreFacts_sync initial_state = (initial_state, None)"
proof -
  have h: "topic initial_state = []"
    by (simp add: initial_state_def)
  show ?thesis
    using h fetchMoreFacts_empty_topic [OF h] by simp
qed

section \<open>The requests\<close>

text \<open>
  C7. The request of submit-topic, issued exactly when the trimmed topic has 2 to 50
  code units, is a POST to the facts endpoint whose body has the single field
  \<open>topic\<close>, holding the trimmed topic, and no field \<open>more\<close>. The request of load-more,
  issued exactly when the topic is not empty, is a POST to the same endpoint whose body
  has the field \<open>topic\<close>, holding the topic as it is, and the field \<open>more\<close>, holding true.
\<close>

theorem request_bodies:
  "snd (fetchFacts_sync s) =
     (if 2 \<le> length (js_trim (topic s)) \<and> length (js_trim (topic s)) \<le> 50
      then Some \<lparr>url = facts_url, http_method = ''POST'', headers = json_headers,
                 body = Some [(''topic'', JStr (js_trim (topic s)))]\<rparr>
      else None)
   \<and> map_of [(''topic'', JStr (js_trim (topic s)))] ''more'' = None
   \<and> snd (fetchMoreFacts_sync s) =
     (if topic s = [] then None
      else Some \<lparr>url = facts_url, http_method = ''POST'', headers = json_headers,
                 body = Some [(''topic'', JStr (topic s)), (''more'', JBool True)]\<rparr>)
   \<and> map_of [(''topic'', JStr (topic s)), (''more'', JBool True)] ''more'' = Some (JBool True)"
  by (auto simp add: fetchFacts_sync_def fetchMoreFacts_sync_def truthy_def Let_def)

theorem request_bodies_witness:
  "snd (fetchFacts_sync (initial_state\<lparr>topic := ascii '' cats ''\<rparr>)) =
     Some \<lparr>url = facts_url, http_method = ''POST'', headers = json_headers,
           body = Some [(''topic'', JStr (ascii ''cats''))]\<rparr>
   \<and> snd (fetchMoreFacts_sync (initial_state\<lparr>topic := ascii '' cats ''\<rparr>)) =
     Some \<lparr>url = facts_url, http_method = ''POST'', headers = json_headers,
           body = Some [(''topic'', JStr (ascii '' cats '')), (''more'', JBool True)]\<rparr>"
proof -
  have t: "js_trim (ascii '' cats '') = ascii ''cats''"
    by (simp add: js_trim_def ascii_def is_ws_def)
  have l: "length (ascii ''cats'') = 4" "ascii '' cats '' \<noteq> []"
    by (simp_all add: ascii_def)
  show ?thesis
    using request_bodies [of "initial_state\<lparr>topic := ascii '' cats ''\<rparr>"]
    by (simp add: t l)
qed

section \<open>Random topic\<close>

text \<open>
  C8. When the random-words request gives an ok response, \<^verbatim>\<open>getRandomWord\<close> sets the
  topic to the word of the response and clears the error message. When the response is
  not ok, or an error was thrown, it sets the error message to one fixed string and
  leaves the topic as it was. In each case the facts are untouched.
\<close>

theorem getRandomWord_outcomes:
  "topic (getRandomWord_resume (Response True d) s) = word d
   \<and> error (getRandomWord_resume (Response True d) s) = []
   \<and> topic (getRandomWord_resume (Response False d) s) = topic s
   \<and> error (getRandomWord_resume (Response False d) s) = msg_random_failed
   \<and> topic (getRandomWord_resume (Rejected m) s) = topic s
   \<and> error (getRandomWord_resume (Rejected m) s) = msg_random_failed
   \<and> facts (getRandomWord_resume out s) = facts s"
  by (cases out)
    (simp_all add: getRandomWord_resume_def getRandomWord_try_def getRandomWord_catch_def)

theorem getRandomWord_outcomes_witness:
  "topic (getRandomWord_resume
      (Response True \<lparr>word = ascii ''batik'', remaining = 7, word_error = None\<rparr>)
      (initial_state\<lparr>error := msg_required\<rparr>)) = ascii ''batik''
   \<and> error (getRandomWord_resume (Rejected (ascii ''Failed to fetch''))
      (initial_state\<lparr>topic := ascii ''ninja''\<rparr>)) = msg_random_failed"
  using getRandomWord_outcomes
    [of "\<lparr>word = ascii ''batik'', remaining = 7, word_error = None\<rparr>"
        "initial_state\<lparr>error := msg_required\<rparr>"]
    getRandomWord_outcomes [of _ "initial_state\<lparr>topic := ascii ''ninja''\<rparr>"]
  by simp

section \<open>How the handlers change the facts\<close>

text \<open>
  C1, as claimed, fails: with the facts \<^verbatim>\<open>["old"]\<close> on screen and an accepted topic,
  \<^verbatim>\<open>fetchFacts\<close> first empties the facts and then stores the facts of the response, so
  the earlier sequence is not a prefix of the new one.
\<close>

theorem facts_append_only_counterexample:
  "facts (initial_state\<lparr>topic := ascii ''cats'', facts := [ascii ''old'']\<rparr>) = [ascii ''old'']
   \<and> facts (fst (fetchFacts_sync (initial_state\<lparr>topic := ascii ''cats'', facts := [ascii ''old'']\<rparr>)))
       = []
   \<and> facts (fetchFacts env_one_fact (initial_state\<lparr>topic := ascii ''cats'', facts := [ascii ''old'']\<rparr>))
       = [ascii ''new'']
   \<and> \<not> prefix (facts (initial_state\<lparr>topic := ascii ''cats'', facts := [ascii ''old'']\<rparr>))
        (facts (fetchFacts env_one_fact
           (initial_state\<lparr>topic := ascii ''cats'', facts := [ascii ''old'']\<rparr>)))"
  by (simp add: fetchFacts_def fetchFacts_sync_def fetchFacts_resume_def fetchFacts_try_def
      env_one_fact_def cleanFacts_def js_trim_def ascii_def is_ws_def truthy_def Let_def)

text \<open>
  C1, amended. Load-more only appends: under every outcome, the error branch included,
  the facts before are a prefix of the facts after, and the part of the handler before
  the request changes nothing but the loadingMore flag. Submit-topic leaves the facts
  unchanged when it rejects the topic, and empties them when it accepts it.
\<close>

theorem load_more_appends:
  "prefix (facts s) (facts (fetchMoreFacts_resume out s))
   \<and> fst (fetchMoreFacts_sync s) = s\<lparr>loadingMore := loadingMore (fst (fetchMoreFacts_sync s))\<rparr>
   \<and> prefix (facts s) (facts (fetchMoreFacts env s))
   \<and> (snd (fetchFacts_sync s) = None \<longrightarrow> facts (fetchFacts env' s) = facts s)
   \<and> (snd (fetchFacts_sync s) \<noteq> None \<longrightarrow> facts (fst (fetchFacts_sync s)) = [])"
proof -
  have r: "prefix (facts t) (facts (fetchMoreFacts_resume o' t))" for o' t
    by (cases o')
      (simp_all add: fetchMoreFacts_resume_def fetchMoreFacts_try_def fetchMoreFacts_catch_def)
  have m: "prefix (facts s) (facts (fetchMoreFacts env s))"
    using r [of "s\<lparr>loadingMore := True\<rparr>"]
    by (simp add: fetchMoreFacts_def fetchMoreFacts_sync_def)
  have f: "(snd (fetchFacts_sync s) = None \<longrightarrow> facts (fetchFacts env' s) = facts s)
     \<and> (snd (fetchFacts_sync s) \<noteq> None \<longrightarrow> facts (fst (fetchFacts_sync s)) = [])"
    by (simp add: fetchFacts_def fetchFacts_sync_def Let_def)
  show ?thesis using r m f by (simp add: fetchMoreFacts_sync_def)
qed

theorem load_more_appends_witness:
  "prefix [ascii ''old'']
     (facts (fetchMoreFacts_resume (Rejected (ascii ''Failed to fetch''))
        (initial_state\<lparr>topic := ascii ''cats'', facts := [ascii ''old'']\<rparr>)))
   \<and> facts (fetchFacts env_one_fact (initial_state\<lparr>facts := [ascii ''old'']\<rparr>)) = [ascii ''old'']"
proof -
  have n: "snd (fetchFacts_sync (initial_state\<lparr>facts := [ascii ''old'']\<rparr>)) = None"
    by (simp add: fetchFacts_sync_def initial_state_def js_trim_def truthy_def)
  show ?thesis
    using load_more_appends
      [of "initial_state\<lparr>topic := ascii ''cats'', facts := [ascii ''old'']\<rparr>"
          "Rejected (ascii ''Failed to fetch'')"]
      load_more_appends [of "initial_state\<lparr>facts := [ascii ''old'']\<rparr>" _ _ env_one_fact] n
    by simp
qed

section \<open>Caught errors\<close>

text \<open>
  C5, as claimed, fails: in load-more a caught error whose message contains \<^verbatim>\<open>429\<close>
  gives the same state as one whose message does not, and the string shown is not the
  rate-limit string; random-topic shows the same error for both messages too.
\<close>

theorem error_mapping_counterexample:
  "js_includes (ascii ''HTTP 429'') (ascii ''429'')
   \<and> \<not> js_includes (ascii ''boom'') (ascii ''429'')
   \<and> facts (fetchMoreFacts_resume (Rejected (ascii ''HTTP 429'')) initial_state)
       = [msg_more_failed]
   \<and> fetchMoreFacts_resume (Rejected (ascii ''HTTP 429'')) initial_state
       = fetchMoreFacts_resume (Rejected (ascii ''boom'')) initial_state
   \<and> msg_more_failed \<noteq> msg_rate_limit
   \<and> error (getRandomWord_resume (Rejected (ascii ''HTTP 429'')) initial_state)
       = error (getRandomWord_resume (Rejected (ascii ''boom'')) initial_state)"
  by (simp add: fetchMoreFacts_resume_def fetchMoreFacts_try_def fetchMoreFacts_catch_def
      getRandomWord_resume_def getRandomWord_try_def getRandomWord_catch_def
      initial_state_def msg_more_failed_def msg_rate_limit_def ascii_def)

text \<open>
  C5, amended. Only submit-topic maps a caught error by substring matching on its
  message: containing \<^verbatim>\<open>429\<close> or \<^verbatim>\<open>Too many requests\<close> gives the rate-limit string;
  otherwise containing \<^verbatim>\<open>500\<close> or \<^verbatim>\<open>Something went wrong\<close> gives the server-issue
  string; any other message gives the three generic fallback strings. A response that is
  not ok is caught as an error whose message is \<^verbatim>\<open>data.error\<close>, or a fixed text when that
  is absent or empty. Load-more appends one fixed string and random-topic sets one fixed
  error message, whatever the message of the caught error.
\<close>

theorem caught_error_messages:
  "facts (fetchFacts_resume (Rejected m) s) =
     (if js_includes m (ascii ''429'') \<or> js_includes m (ascii ''Too many requests'')
      then [msg_rate_limit]
      else if js_includes m (ascii ''500'') \<or> js_includes m (ascii ''Something went wrong'')
      then [msg_server_issue]
      else msgs_generic)
   \<and> facts (fetchFacts_resume (Response False d) s) =
       facts (fetchFacts_resume
         (Rejected (error_or (error_field d) (ascii ''Failed to fetch facts''))) s)
   \<and> facts (fetchMoreFacts_resume (Rejected m) s) = facts s @ [msg_more_failed]
   \<and> facts (fetchMoreFacts_resume (Response False d) s) = facts s @ [msg_more_failed]
   \<and> error (getRandomWord_resume (Rejected m) s) = msg_random_failed
   \<and> error (getRandomWord_resume (Response False w) s) = msg_random_failed"
  by (simp add: fetchFacts_resume_def fetchFacts_try_def fetchFacts_catch_def
      fetchMoreFacts_resume_def fetchMoreFacts_try_def fetchMoreFacts_catch_def
      getRandomWord_resume_def getRandomWord_try_def getRandomWord_catch_def)

theorem caught_error_messages_witness:
  "facts (fetchFacts_resume (Rejected (ascii ''HTTP 429'')) initial_state) = [msg_rate_limit]
   \<and> facts (fetchFacts_resume
        (Response False \<lparr>facts_field = FactsOther,
                         error_field = Some (ascii ''Something went wrong'')\<rparr>) initial_state)
      = [msg_server_issue]
   \<and> facts (fetchFacts_resume (Rejected (ascii ''Failed to fetch'')) initial_state)
      = msgs_generic"
proof -
  have a: "js_includes (ascii ''HTTP 429'') (ascii ''429'')"
    by (simp add: ascii_def)
  have b: "\<not> js_includes (ascii ''Something went wrong'') (ascii ''429'')"
    "\<not> js_includes (ascii ''Something went wrong'') (ascii ''Too many requests'')"
    "js_includes (ascii ''Something went wrong'') (ascii ''Something went wrong'')"
    by (simp_all add: ascii_def)
  have c: "\<not> js_includes (ascii ''Failed to fetch'') (ascii ''429'')"
    "\<not> js_includes (ascii ''Failed to fetch'') (ascii ''Too many requests'')"
    "\<not> js_includes (ascii ''Failed to fetch'') (ascii ''500'')"
    "\<not> js_includes (ascii ''Failed to fetch'') (ascii ''Something went wrong'')"
    by (simp_all add: ascii_def)
  have e: "error_or (Some (ascii ''Something went wrong'')) (ascii ''Failed to fetch facts'')
      = ascii ''Something went wrong''"
    by (simp add: error_or_def truthy_def ascii_def)
  show ?thesis
    using caught_error_messages [of "ascii ''HTTP 429''" initial_state]
      caught_error_messages
        [of "ascii ''Something went wrong''" initial_state
            "\<lparr>facts_field = FactsOther, error_field = Some (ascii ''Something went wrong'')\<rparr>"]
      caught_error_messages [of "ascii ''Failed to fetch''" initial_state]
    by (simp add: a b c e)
qed

section \<open>Buttons and loading flags\<close>

text \<open>
  In every state a flag that is true disables its button; a handler that issues its
  request has set its own flag by then, and when the request completes the flag is false,
  whatever the outcome.
\<close>

lemma loading_flags_pointwise:
  "(loading s \<longrightarrow> submit_button_disabled s)
   \<and> (loadingMore s \<longrightarrow> more_button_disabled s)
   \<and> (loadingRandomWord s \<longrightarrow> random_button_disabled s)
   \<and> (snd (fetchFacts_sync s) \<noteq> None \<longrightarrow> loading (fst (fetchFacts_sync s)))
   \<and> (snd (fetchMoreFacts_sync s) \<noteq> None \<longrightarrow> loadingMore (fst (fetchMoreFacts_sync s)))
   \<and> snd (getRandomWord_sync s) \<noteq> None
   \<and> loadingRandomWord (fst (getRandomWord_sync s))
   \<and> \<not> loading (fetchFacts_resume out s)
   \<and> \<not> loadingMore (fetchMoreFacts_resume out s)
   \<and> \<not> loadingRandomWord (getRandomWord_resume out' s)"
  by (simp add: submit_button_disabled_def more_button_disabled_def
      random_button_disabled_def fetchFacts_sync_def fetchMoreFacts_sync_def
      getRandomWord_sync_def fetchFacts_resume_def fetchMoreFacts_resume_def
      getRandomWord_resume_def Let_def)

text \<open>Each part of a handler changes no loading flag but its own.\<close>

lemma fetchFacts_sync_flags:
  assumes "fetchFacts_sync s = (s', r)"
  shows "loading s' = (case r of None \<Rightarrow> loading s | Some _ \<Rightarrow> True)"
    and "loadingMore s' = loadingMore s"
    and "loadingRandomWord s' = loadingRandomWord s"
  using assms by (auto simp add: fetchFacts_sync_def Let_def split: if_splits)

lemma fetchMoreFacts_sync_flags:
  assumes "fetchMoreFacts_sync s = (s', r)"
  shows "loadingMore s' = (case r of None \<Rightarrow> loadingMore s | Some _ \<Rightarrow> True)"
    and "loading s' = loading s"
    and "loadingRandomWord s' = loadingRandomWord s"
  using assms by (auto simp add: fetchMoreFacts_sync_def split: if_splits)

lemma getRandomWord_sync_flags:
  assumes "getRandomWord_sync s = (s', r)"
  shows "loadingRandomWord s'" and "r \<noteq> None"
    and "loading s' = loading s"
    and "loadingMore s' = loadingMore s"
  using assms by (auto simp add: getRandomWord_sync_def)

lemma fetchFacts_resume_flags:
  "loading (fetchFacts_resume out s) = False"
  "loadingMore (fetchFacts_resume out s) = loadingMore s"
  "loadingRandomWord (fetchFacts_resume out s) = loadingRandomWord s"
  by (simp_all add: fetchFacts_resume_def fetchFacts_try_def fetchFacts_catch_def
      split: outcome.splits sum.splits)

lemma fetchMoreFacts_resume_flags:
  "loadingMore (fetchMoreFacts_resume out s) = False"
  "loading (fetchMoreFacts_resume out s) = loading s"
  "loadingRandomWord (fetchMoreFacts_resume out s) = loadingRandomWord s"
  by (simp_all add: fetchMoreFacts_resume_def fetchMoreFacts_try_def fetchMoreFacts_catch_def
      split: outcome.splits sum.splits)

lemma getRandomWord_resume_flags:
  "loadingRandomWord (getRandomWord_resume out s) = False"
  "loading (getRandomWord_resume out s) = loading s"
  "loadingMore (getRandomWord_resume out s) = loadingMore s"
  by (simp_all add: getRandomWord_resume_def getRandomWord_try_def getRandomWord_catch_def
      split: outcome.splits sum.splits)

lemma handleKeyPress_flags:
  assumes "handleKeyPress k s = (s', r)"
  shows "loadingMore s' = loadingMore s"
    and "loadingRandomWord s' = loadingRandomWord s"
    and "k \<noteq> Enter \<Longrightarrow> loading s' = loading s \<and> r = None"
  using assms
  by (auto simp add: handleKeyPress_def split: key.splits dest: fetchFacts_sync_flags)

lemmas resume_flags =
  fetchFacts_resume_flags fetchMoreFacts_resume_flags getRandomWord_resume_flags

lemma step_more_random_inv:
  assumes "more_random_inv u" and "step e u = Some u'"
  shows "more_random_inv u'"
proof (cases e)
  case (TypeTopic t)
  then show ?thesis using assms by (auto simp: more_random_inv_def)
next
  case (KeyPress k)
  then show ?thesis using assms
    by (auto simp: more_random_inv_def split: prod.splits dest: handleKeyPress_flags(1,2))
next
  case ClickSubmit
  then show ?thesis using assms
    by (auto simp: more_random_inv_def split: prod.splits if_splits
        dest: fetchFacts_sync_flags(2,3))
next
  case ClickMore
  then show ?thesis using assms
    by (auto simp: more_random_inv_def more_button_disabled_def issued_def
        split: prod.splits if_splits option.splits dest: fetchMoreFacts_sync_flags)
next
  case ClickRandom
  then show ?thesis using assms
    by (auto simp: more_random_inv_def random_button_disabled_def issued_def
        split: prod.splits if_splits option.splits dest: getRandomWord_sync_flags)
next
  case (SubmitDone out)
  then show ?thesis using assms
    by (auto simp: more_random_inv_def resume_flags split: if_splits)
next
  case (MoreDone out)
  then show ?thesis using assms
    by (auto simp: more_random_inv_def resume_flags split: if_splits)
next
  case (RandomDone out)
  then show ?thesis using assms
    by (auto simp: more_random_inv_def resume_flags split: if_splits)
qed

lemma run_more_random_inv:
  "more_random_inv u \<Longrightarrow> run es u = Some u' \<Longrightarrow> more_random_inv u'"
proof (induction es arbitrary: u)
  case Nil
  then show ?case by simp
next
  case (Cons e es)
  then show ?case
    by (auto split: option.splits dest: step_more_random_inv)
qed

lemma step_submit_inv:
  assumes "submit_inv u" and "step e u = Some u'" and "e \<noteq> KeyPress Enter"
  shows "submit_inv u'"
proof (cases e)
  case (TypeTopic t)
  then show ?thesis using assms by (auto simp: submit_inv_def)
next
  case (KeyPress k)
  then have "k \<noteq> Enter" using assms(3) by simp
  then show ?thesis using assms KeyPress
    by (auto simp: submit_inv_def issued_def split: prod.splits dest: handleKeyPress_flags(3))
next
  case ClickSubmit
  then show ?thesis using assms
    by (auto simp: submit_inv_def submit_button_disabled_def issued_def
        split: prod.splits if_splits option.splits dest: fetchFacts_sync_flags(1))
next
  case ClickMore
  then show ?thesis using assms
    by (auto simp: submit_inv_def split: prod.splits if_splits
        dest: fetchMoreFacts_sync_flags(2))
next
  case ClickRandom
  then show ?thesis using assms
    by (auto simp: submit_inv_def split: prod.splits if_splits
        dest: getRandomWord_sync_flags(3))
next
  case (SubmitDone out)
  then show ?thesis using assms
    by (auto simp: submit_inv_def resume_flags split: if_splits)
next
  case (MoreDone out)
  then show ?thesis using assms
    by (auto simp: submit_inv_def resume_flags split: if_splits)
next
  case (RandomDone out)
  then show ?thesis using assms
    by (auto simp: submit_inv_def resume_flags split: if_splits)
qed

lemma run_submit_inv:
  "submit_inv u \<Longrightarrow> KeyPress Enter \<notin> set es \<Longrightarrow> run es u = Some u' \<Longrightarrow> submit_inv u'"
proof (induction es arbitrary: u)
  case Nil
  then show ?case by simp
next
  case (Cons e es)
  then show ?case
    by (auto split: option.splits dest: step_submit_inv)
qed

lemma more_random_in_flight:
  assumes "run es initial_ui = Some u"
  shows "(0 < mores_in_flight u \<longleftrightarrow> loadingMore (view u))
    \<and> (0 < mores_in_flight u \<longrightarrow> more_button_disabled (view u))
    \<and> (0 < randoms_in_flight u \<longleftrightarrow> loadingRandomWord (view u))
    \<and> (0 < randoms_in_flight u \<longrightarrow> random_button_disabled (view u))
    \<and> mores_in_flight u \<le> 1 \<and> randoms_in_flight u \<le> 1"
proof -
  have "more_random_inv initial_ui"
    by (simp add: more_random_inv_def initial_ui_def initial_state_def)
  then have "more_random_inv u" using assms by (rule run_more_random_inv)
  then show ?thesis
    by (simp add: more_random_inv_def more_button_disabled_def random_button_disabled_def)
qed

lemma submit_in_flight_without_enter:
  assumes "run es initial_ui = Some u" and "KeyPress Enter \<notin> set es"
  shows "(0 < submits_in_flight u \<longleftrightarrow> loading (view u))
    \<and> (0 < submits_in_flight u \<longrightarrow> submit_button_disabled (view u))
    \<and> submits_in_flight u \<le> 1"
proof -
  have "submit_inv initial_ui"
    by (simp add: submit_inv_def initial_ui_def initial_state_def)
  then have "submit_inv u" using assms(2,1) by (rule run_submit_inv)
  then show ?thesis
    by (simp add: submit_inv_def submit_button_disabled_def)
qed

text \<open>
  C6. The load-more and the random-topic button are disabled for as long as their request
  is in flight (the two lemmas above, over every sequence of events), and so is the submit
  button as long as Enter is not pressed in the topic input. Enter calls \<^verbatim>\<open>fetchFacts\<close>
  without looking at \<^verbatim>\<open>loading\<close>: after a click on submit and then Enter, two submit
  requests are in flight, and when the first of them completes \<^verbatim>\<open>finally\<close> clears
  \<^verbatim>\<open>loading\<close>, so the submit button is enabled while a submit request is still in
  flight.
\<close>

theorem submit_enabled_while_in_flight:
  "map_option (\<lambda>u. (submits_in_flight u, loading (view u), submit_button_disabled (view u)))
     (run [TypeTopic (ascii ''cats''), ClickSubmit, KeyPress Enter] initial_ui)
     = Some (2, True, True)
   \<and> map_option (\<lambda>u. (submits_in_flight u, loading (view u), submit_button_disabled (view u)))
     (run [TypeTopic (ascii ''cats''), ClickSubmit, KeyPress Enter,
           SubmitDone
          (Response True \<lparr>facts_field = FactsArray [ascii ''new''], error_field = None\<rparr>)]
        initial_ui)
     = Some (1, False, False)"
  by (simp add: initial_ui_def initial_state_def handleKeyPress_def issued_def
      submit_button_disabled_def fetchFacts_sync_def fetchFacts_resume_def fetchFacts_try_def
      cleanFacts_def js_trim_def ascii_def is_ws_def truthy_def Let_def)

end
